theory Spec2Isabelle
  imports Complex_Main "HOL-Library.Word"
begin

section \<open>Sequence ring buffer (include/ring\_buffer.hpp)\<close>

text \<open>
  \<^verbatim>\<open>core::RingBuffer<T, Capacity>\<close> holds two parallel arrays of \<open>Capacity\<close> slots and the
  greatest sequence number pushed so far. The arrays are lists of length \<open>Capacity\<close>;
  \<open>uint64_t\<close> and \<open>size_t\<close> are 64-bit words, so \<open>max_seq - Capacity\<close> and
  \<open>seq_num % Capacity\<close> are the machine operations of the source. The members
  \<^verbatim>\<open>buffer_\<close>, \<^verbatim>\<open>seq_nums_\<close> and \<^verbatim>\<open>max_seq_\<close> lose their trailing underscore, which an
  Isabelle name cannot end with.
\<close>

type_synonym u64 = "64 word"
type_synonym u32 = "32 word"

record 'a RingBuffer =
  buffer :: "'a list"
  seq_nums :: "u64 list"
  max_seq :: u64

definition push :: "u64 \<Rightarrow> u64 \<Rightarrow> 'a \<Rightarrow> 'a RingBuffer \<Rightarrow> 'a RingBuffer" where
  "push Capacity seq_num item r =
     (let index = unat (seq_num mod Capacity);
          r1 = r\<lparr>buffer := (buffer r)[index := item]\<rparr>;
          r2 = r1\<lparr>seq_nums := (seq_nums r1)[index := seq_num]\<rparr>
      in if seq_num > max_seq r2 then r2\<lparr>max_seq := seq_num\<rparr> else r2)"

text \<open>\<open>get\<close> returns \<open>false\<close> as \<open>None\<close> and \<open>true\<close> with \<open>out_item\<close> as \<open>Some\<close>.\<close>

definition get :: "u64 \<Rightarrow> u64 \<Rightarrow> 'a RingBuffer \<Rightarrow> 'a option" where
  "get Capacity seq_num r =
     (if max_seq r \<ge> Capacity \<and> seq_num \<le> max_seq r - Capacity then None
      else let index = unat (seq_num mod Capacity)
           in if seq_nums r ! index = seq_num then Some (buffer r ! index) else None)"

text \<open>
  A ring whose storage is all zero: every slot holds the value-initialised item \<open>d\<close> and
  the recorded sequence number 0, and \<open>max_seq\<close> has its initialiser 0.
\<close>

definition new_ring :: "u64 \<Rightarrow> 'a \<Rightarrow> 'a RingBuffer" where
  "new_ring Capacity d =
     \<lparr>buffer = replicate (unat Capacity) d,
      seq_nums = replicate (unat Capacity) 0,
      max_seq = 0\<rparr>"

text \<open>The arrays have \<open>Capacity\<close> slots, and \<open>Capacity\<close> is not zero.\<close>

definition ring_wf :: "u64 \<Rightarrow> 'a RingBuffer \<Rightarrow> bool" where
  "ring_wf Capacity r \<longleftrightarrow>
     0 < Capacity \<and> length (buffer r) = unat Capacity \<and> length (seq_nums r) = unat Capacity"

text \<open>A run of pushes, in the order of the list.\<close>

fun pushes :: "u64 \<Rightarrow> (u64 \<times> 'a) list \<Rightarrow> 'a RingBuffer \<Rightarrow> 'a RingBuffer" where
  "pushes Capacity [] r = r"
| "pushes Capacity ((s, t) # ps) r = pushes Capacity ps (push Capacity s t r)"

text \<open>Pushes of consecutive sequence numbers, as the publisher makes them (\<open>seq_num++\<close>).\<close>

fun push_seq :: "u64 \<Rightarrow> u64 \<Rightarrow> 'a list \<Rightarrow> 'a RingBuffer \<Rightarrow> 'a RingBuffer" where
  "push_seq Capacity s [] r = r"
| "push_seq Capacity s (t # ts) r = push_seq Capacity (s + 1) ts (push Capacity s t r)"

section \<open>Wire formats (include/protocol.hpp)\<close>

text \<open>
  \<^verbatim>\<open>TickPacket\<close> is 8 + 8 + 8 + 4 + 4 bytes. The price is a \<open>double\<close>; its type \<open>'d\<close> is
  left open, and the arithmetic on it is \<open>+\<close>, \<open>-\<close>, \<open>*\<close> and \<open><\<close> of that type, with
  no law assumed of them in the definitions. \<^verbatim>\<open>char symbol[4]\<close> is a string of four
  characters.
\<close>

record 'd TickPacket =
  sequence_num :: u64
  timestamp :: u64
  price :: 'd
  quantity :: u32
  symbol :: string

record RetransmitRequest =
  missed_sequence_num :: u64

abbreviation NUL :: char where
  "NUL \<equiv> CHR 0x00"

text \<open>\<^verbatim>\<open>protocol::TickPacket tick{}\<close>: every member zero.\<close>

definition zero_tick :: "'d::zero TickPacket" where
  "zero_tick =
     \<lparr>sequence_num = 0, timestamp = 0, price = 0, quantity = 0, symbol = replicate 4 NUL\<rparr>"

text \<open>
  The bytes of a tick in memory, which \<^verbatim>\<open>sendto\<close> and \<^verbatim>\<open>send\<close> put on the wire: each
  integer little-endian (host order of the reference), the price through its 64-bit
  pattern \<open>bits\<close>, the symbol array as it is.
\<close>

type_synonym byte = "8 word"

definition le_bytes :: "nat \<Rightarrow> 'a::len word \<Rightarrow> byte list" where
  "le_bytes n w = map (\<lambda>i. ucast (drop_bit (8 * i) w)) [0..<n]"

definition tick_bytes :: "('d \<Rightarrow> u64) \<Rightarrow> 'd TickPacket \<Rightarrow> byte list" where
  "tick_bytes bits t =
     le_bytes 8 (sequence_num t) @ le_bytes 8 (timestamp t) @ le_bytes 8 (bits (price t)) @
     le_bytes 4 (quantity t) @ map of_char (symbol t)"

text \<open>A tick whose symbol is the four-character array of the struct.\<close>

definition tick_wf :: "'d TickPacket \<Rightarrow> bool" where
  "tick_wf t \<longleftrightarrow> length (symbol t) = 4"

section \<open>Binary64 arithmetic\<close>

text \<open>
  The prices are \<open>double\<close>. \<open>Double m e\<close> stands for the number \<open>m * 2 ^ e\<close>; the results
  of the operations have a significand of 53 bits, \<open>2 ^ 52 \<le> \<bar>m\<bar> < 2 ^ 53\<close>, or are
  \<open>Double 0 0\<close>. Each operation is the exact one followed by rounding to the nearest
  such number, ties to the even significand, as binary64 does in its default mode.
  The exponent is not bounded: this is binary64 on its normal range, without overflow,
  subnormal numbers, infinities or NaN.
\<close>

datatype double = Double int int

text \<open>The number of binary digits of a positive integer.\<close>

function bit_length :: "int \<Rightarrow> nat" where
  "bit_length m = (if m \<le> 0 then 0 else Suc (bit_length (m div 2)))"
  by pat_completeness auto
termination
  by (relation "measure nat") auto

declare bit_length.simps [simp del]

definition round_double :: "int \<Rightarrow> int \<Rightarrow> double" where
  "round_double m e =
     (if m = 0 then Double 0 0
      else let n = bit_length \<bar>m\<bar>
           in if n \<le> 53 then Double (m * 2 ^ (53 - n)) (e - int (53 - n))
              else let k = n - 53;
                       q = \<bar>m\<bar> div 2 ^ k;
                       r = \<bar>m\<bar> mod 2 ^ k;
                       h = 2 ^ (k - 1);
                       q = (if h < r \<or> (r = h \<and> odd q) then q + 1 else q)
                   in if q = 2 ^ 53 then Double (sgn m * 2 ^ 52) (e + int k + 1)
                      else Double (sgn m * q) (e + int k))"

text \<open>Two numbers brought to their smaller exponent.\<close>

fun aligned :: "double \<Rightarrow> double \<Rightarrow> int \<times> int \<times> int" where
  "aligned (Double m1 e1) (Double m2 e2) =
     (let e = min e1 e2 in (m1 * 2 ^ nat (e1 - e), m2 * 2 ^ nat (e2 - e), e))"

instantiation double :: "{zero, one, plus, minus, times, ord}"
begin

definition zero_double :: double where
  "zero_double = Double 0 0"

definition one_double :: double where
  "one_double = round_double 1 0"

definition plus_double :: "double \<Rightarrow> double \<Rightarrow> double" where
  "plus_double a b = (case aligned a b of (m1, m2, e) \<Rightarrow> round_double (m1 + m2) e)"

definition minus_double :: "double \<Rightarrow> double \<Rightarrow> double" where
  "minus_double a b = (case aligned a b of (m1, m2, e) \<Rightarrow> round_double (m1 - m2) e)"

definition times_double :: "double \<Rightarrow> double \<Rightarrow> double" where
  "times_double a b =
     (case (a, b) of (Double m1 e1, Double m2 e2) \<Rightarrow> round_double (m1 * m2) (e1 + e2))"

definition less_double :: "double \<Rightarrow> double \<Rightarrow> bool" where
  "less_double a b = (case aligned a b of (m1, m2, e) \<Rightarrow> m1 < m2)"

definition less_eq_double :: "double \<Rightarrow> double \<Rightarrow> bool" where
  "less_eq_double a b = (case aligned a b of (m1, m2, e) \<Rightarrow> m1 \<le> m2)"

instance ..

end

section \<open>Publisher (src/publisher.cpp)\<close>

definition RING_BUFFER_SIZE :: u64 where
  "RING_BUFFER_SIZE = 10000"

definition symbols :: "string list" where
  "symbols =
     [''AAPL'', ''MSFT'', ''GOOG'', ''AMZN'', ''META'', ''TSLA'', ''NVDA'', ''JPM'',
      ''JNJ'',  ''V'',    ''UNH'',  ''PG'',   ''HD'',   ''DIS'',  ''MA'',   ''BAC'',
      ''VZ'',   ''CRM'',  ''XOM'',  ''PFE'',  ''NKE'',  ''INTC'', ''T'',    ''KO'',
      ''MRK'',  ''PEP'',  ''ABT'',  ''WMT'',  ''CVX'',  ''CSCO'', ''MCD'',  ''ABBV'',
      ''MDT'',  ''BMY'',  ''ACN'',  ''AVGO'', ''TXN'',  ''COST'', ''NEE'',  ''QCOM'',
      ''DHR'',  ''LIN'',  ''PM'',   ''UNP'',  ''LOW'',  ''HON'',  ''UPS'',  ''IBM'',
      ''SBUX'', ''CAT'']"

text \<open>
  \<^verbatim>\<open>strncpy(dest, src, n)\<close>: the characters of \<open>src\<close> up to its terminator, at most \<open>n\<close>
  of them, padded with NUL to \<open>n\<close> characters when \<open>src\<close> is shorter; the rest of
  \<open>dest\<close> is untouched.
\<close>

definition strncpy :: "string \<Rightarrow> string \<Rightarrow> nat \<Rightarrow> string" where
  "strncpy dest src n = take n (takeWhile (\<lambda>c. c \<noteq> NUL) src @ replicate n NUL) @ drop n dest"

text \<open>
  What one tick takes from outside the program: the draws of the random distributions
  (each read only on the path that draws it), the clock and the result of \<^verbatim>\<open>sendto\<close>.
\<close>

record 'd draws =
  sym_dist :: nat
  price_delta_dist :: 'd
  fundamental_dist :: int
  fundamental_depth :: 'd
  anomaly_dist :: int
  anomaly_depth :: 'd
  drop_dist :: int
  now_ns :: u64
  sendto_result :: int

text \<open>Lines 89 to 96: the random walk and the floor, written back to \<open>current_prices\<close>.\<close>

definition random_walk ::
  "nat \<Rightarrow> 'd::{one,plus,times,ord} \<Rightarrow> 'd list \<Rightarrow> 'd list" where
  "random_walk sym_idx delta current_prices =
     (let cp = current_prices[sym_idx := current_prices ! sym_idx + current_prices ! sym_idx * delta]
      in if cp ! sym_idx < 1 then cp[sym_idx := 1] else cp)"

text \<open>
  Lines 98 to 125: the fundamental crash, written back, or else the anomaly, which
  changes \<open>published_price\<close> only. The result is the published price and the price table.
\<close>

definition shocks ::
  "'d draws \<Rightarrow> nat \<Rightarrow> 'd::{one,minus,times,ord} list \<Rightarrow> 'd \<times> 'd list" where
  "shocks d sym_idx current_prices =
     (let published_price = current_prices ! sym_idx
      in if fundamental_dist d = 1 then
           (let cp = current_prices[sym_idx :=
                       current_prices ! sym_idx - current_prices ! sym_idx * fundamental_depth d];
                cp' = (if cp ! sym_idx < 1 then cp[sym_idx := 1] else cp)
            in (cp' ! sym_idx, cp'))
         else if anomaly_dist d = 1 then
           (published_price - published_price * anomaly_depth d, current_prices)
         else (published_price, current_prices))"

definition gen_price ::
  "'d draws \<Rightarrow> 'd::{one,plus,minus,times,ord} list \<Rightarrow> 'd \<times> 'd list" where
  "gen_price d current_prices =
     shocks d (sym_dist d) (random_walk (sym_dist d) (price_delta_dist d) current_prices)"

text \<open>Lines 127 to 139: the tick.\<close>

definition make_tick :: "u64 \<Rightarrow> nat \<Rightarrow> 'd::zero \<Rightarrow> u64 \<Rightarrow> 'd TickPacket" where
  "make_tick seq_num sym_idx published_price now =
     (let tick = zero_tick;
          tick = tick\<lparr>sequence_num := seq_num\<rparr>;
          tick = tick\<lparr>symbol := strncpy (symbol tick) (symbols ! sym_idx) (length (symbol tick) - 1)\<rparr>;
          tick = tick\<lparr>price := published_price\<rparr>;
          tick = tick\<lparr>quantity := ucast (100 + seq_num mod 50)\<rparr>
      in tick\<lparr>timestamp := now\<rparr>)"

text \<open>
  The publisher's state, and \<open>wire\<close>, the datagrams it has sent. One pass of the batch
  loop (lines 57 to 158) makes a tick, pushes it and sends it unless the drop is drawn;
  the datagram is on the wire when \<^verbatim>\<open>sendto\<close> returns a positive count.
\<close>

record 'd publisher =
  seq_num :: u64
  current_prices :: "'d list"
  ring_buffer :: "'d TickPacket RingBuffer"
  msgs_sent_this_sec :: u64
  last_sent_tick :: "'d TickPacket"
  wire :: "'d TickPacket list"

definition tick_step ::
  "'d draws \<Rightarrow> 'd::{zero,one,plus,minus,times,ord} publisher \<Rightarrow> 'd publisher" where
  "tick_step d p =
     (let (published_price, cp) = gen_price d (current_prices p);
          tick = make_tick (seq_num p) (sym_dist d) published_price (now_ns d);
          p = p\<lparr>current_prices := cp,
                ring_buffer := push RING_BUFFER_SIZE (seq_num p) tick (ring_buffer p)\<rparr>;
          drop_simulation = (drop_dist d = 1);
          p = (if \<not> drop_simulation then
                 (let sent = sendto_result d
                  in if sent > 0
                     then p\<lparr>wire := wire p @ [tick],
                            msgs_sent_this_sec := msgs_sent_this_sec p + 1\<rparr>
                     else p)
               else p)
      in p\<lparr>last_sent_tick := tick, seq_num := seq_num p + 1\<rparr>)"

text \<open>
  Lines 161 to 195, for an accepted connection: \<open>bytes_read\<close> is what \<^verbatim>\<open>recv\<close> returned
  and \<open>req\<close> the request buffer; the result is the bytes written to the client before
  \<^verbatim>\<open>close\<close>.
\<close>

definition retransmit_server ::
  "('d \<Rightarrow> u64) \<Rightarrow> u64 \<Rightarrow> 'd TickPacket RingBuffer \<Rightarrow> int \<Rightarrow> RetransmitRequest \<Rightarrow> byte list" where
  "retransmit_server bits Capacity ring bytes_read req =
     (if bytes_read = 8 then
        (case get Capacity (missed_sequence_num req) ring of
           Some recovery_tick \<Rightarrow> tick_bytes bits recovery_tick
         | None \<Rightarrow> [])
      else [])"

text \<open>
  \<^verbatim>\<open>core::RingBuffer<protocol::TickPacket, RING_BUFFER_SIZE> ring_buffer;\<close> (line 30):
  the ring of the publisher is default-initialised. Only \<open>max_seq\<close> has an initialiser;
  the two arrays hold what their storage held, \<open>storage\<close> and \<open>recorded\<close>.
\<close>

definition default_ring :: "'a list \<Rightarrow> u64 list \<Rightarrow> 'a RingBuffer" where
  "default_ring storage recorded = \<lparr>buffer = storage, seq_nums = recorded, max_seq = 0\<rparr>"

text \<open>
  A well-formed ring in which every slot is a tick of the struct and no slot records a
  sequence number above \<open>max_seq\<close>. A zeroed ring is one, and a push keeps it; the
  default-initialised ring of the publisher need not be one.
\<close>

definition slots_bounded :: "u64 \<Rightarrow> 'd TickPacket RingBuffer \<Rightarrow> bool" where
  "slots_bounded Capacity r \<longleftrightarrow>
     ring_wf Capacity r \<and>
     (\<forall>i < unat Capacity. tick_wf (buffer r ! i) \<and> seq_nums r ! i \<le> max_seq r)"

text \<open>
  A slot keeps the pair \<open>(s, t)\<close>: the slot of \<open>s\<close> records \<open>s\<close> and holds \<open>t\<close>, and
  \<open>max_seq\<close> is less than \<open>Capacity\<close> ahead of \<open>s\<close>.
\<close>

definition slot_holds :: "u64 \<Rightarrow> u64 \<Rightarrow> 'a \<Rightarrow> 'a RingBuffer \<Rightarrow> bool" where
  "slot_holds Capacity s t r \<longleftrightarrow>
     ring_wf Capacity r \<and> seq_nums r ! unat (s mod Capacity) = s \<and>
     buffer r ! unat (s mod Capacity) = t \<and> unat (max_seq r) < unat s + unat Capacity"

section \<open>Subscriber (src/subscriber.cpp)\<close>

text \<open>
  What the subscriber does that can be observed, in order: the lines it prints and the
  requests it sends on a recovery connection. The lines of the trading rule carry
  what the rule gives, of any type \<open>'o\<close>. One recovery connection gives an exception
  from \<^verbatim>\<open>connect_tcp_client\<close>, or the result of \<^verbatim>\<open>recv\<close> with the buffer it filled.
\<close>

datatype ('d, 'o) sub_event =
  Starting
| Listening
| GapDetected u64 u64
| TcpRequest u64
| Recovered u64 'd
| RecoverFailed u64
| ConnectionFailed
| Metrics u64 'd 'd 'd string 'd
| StrategyPrint 'o
| UdpReceiveFailed
| FinalReport
| FatalError

datatype 'd tcp_result = ConnectThrows | TcpRecv int "'d TickPacket"

text \<open>
  The state of the ingest loop: the cursor, the latency counters, the state of the
  trading rule (the strategy map and the session profit, of any type \<open>'c\<close>) and the
  output so far. A point of the steady clock is its count of nanoseconds.
\<close>

record ('d, 'c, 'o) subscriber =
  expected_seq :: u64
  ticks_received_this_sec :: u64
  min_lat :: 'd
  max_lat :: 'd
  sum_lat :: 'd
  last_report_time :: int
  last_recv_tick :: "'d TickPacket"
  consumer :: 'c
  out :: "('d, 'o) sub_event list"

text \<open>
  Lines 104 to 128: one pass of the recovery loop, for \<open>missed_seq\<close>. The request is
  sent once the connection is made; \<open>recovered_tick\<close> is local to the pass and is used
  for the line printed only.
\<close>

definition recover_one :: "(u64 \<Rightarrow> 'd tcp_result) \<Rightarrow> u64 \<Rightarrow> ('d, 'o) sub_event list" where
  "recover_one tcp missed_seq =
     (case tcp missed_seq of
        ConnectThrows \<Rightarrow> [ConnectionFailed]
      | TcpRecv bytes_recv recovered_tick \<Rightarrow>
          [TcpRequest missed_seq,
           if bytes_recv = 32 then Recovered (sequence_num recovered_tick) (price recovered_tick)
           else RecoverFailed missed_seq])"

text \<open>Lines 102 to 129: the loop from \<open>missed_seq\<close> up to the sequence number of the tick.\<close>

function recover ::
  "(u64 \<Rightarrow> 'd tcp_result) \<Rightarrow> u64 \<Rightarrow> u64 \<Rightarrow> ('d, 'o) sub_event list" where
  "recover tcp missed_seq tick_seq =
     (if missed_seq < tick_seq
      then recover_one tcp missed_seq @ recover tcp (missed_seq + 1) tick_seq
      else [])"
  by pat_completeness auto
termination
proof (relation "measure (\<lambda>(tcp, missed_seq, tick_seq). unat tick_seq - unat missed_seq)")
  show "wf (measure (\<lambda>(tcp :: u64 \<Rightarrow> 'd tcp_result, missed_seq :: u64, tick_seq :: u64).
              unat tick_seq - unat missed_seq))"
    by simp
next
  fix tcp :: "u64 \<Rightarrow> 'd tcp_result" and missed_seq tick_seq :: u64
  assume lt: "missed_seq < tick_seq"
  have "unat tick_seq < 2 ^ 64"
    using unsigned_less [of tick_seq, where 'a = nat] by simp
  with lt have "unat missed_seq + 1 < 2 ^ 64"
    by (simp add: word_less_nat_alt)
  then have "unat (missed_seq + 1) = unat missed_seq + 1"
    by (simp add: unat_word_ariths)
  with lt show "((tcp, missed_seq + 1, tick_seq), (tcp, missed_seq, tick_seq))
      \<in> measure (\<lambda>(tcp, missed_seq, tick_seq). unat tick_seq - unat missed_seq)"
    by (simp add: word_less_nat_alt)
qed

declare recover.simps [simp del]

text \<open>
  Lines 132 to 162: the latency counters and, once a second of the steady clock has
  passed, the metrics line. \<open>dbl\<close> is the conversion of a 64-bit unsigned integer to
  \<open>double\<close>; the literals \<open>1000.0\<close> and \<open>1e9\<close> are \<open>dbl 1000\<close> and \<open>dbl 1000000000\<close>.
  \<open>clock_ns\<close> is the reading of the high-resolution clock and \<open>now\<close> that of the steady
  clock.
\<close>

definition metrics ::
  "(u64 \<Rightarrow> 'd) \<Rightarrow> u64 \<Rightarrow> int \<Rightarrow> 'd TickPacket \<Rightarrow>
   ('d::{zero,plus,inverse,ord}, 'c, 'o) subscriber \<Rightarrow> ('d, 'c, 'o) subscriber" where
  "metrics dbl clock_ns now tick s =
     (let latency_us = dbl (clock_ns - timestamp tick) / dbl 1000;
          s = s\<lparr>ticks_received_this_sec := ticks_received_this_sec s + 1\<rparr>;
          s = (if latency_us < min_lat s then s\<lparr>min_lat := latency_us\<rparr> else s);
          s = (if max_lat s < latency_us then s\<lparr>max_lat := latency_us\<rparr> else s);
          s = s\<lparr>sum_lat := sum_lat s + latency_us\<rparr>;
          s = s\<lparr>last_recv_tick := tick\<rparr>
      in if (now - last_report_time s) div 1000000000 \<ge> 1 then
           (let avg_lat = sum_lat s / dbl (ticks_received_this_sec s);
                s = s\<lparr>out := out s @
                      [Metrics (ticks_received_this_sec s) (min_lat s) (max_lat s) avg_lat
                         (symbol (last_recv_tick s)) (price (last_recv_tick s))]\<rparr>
            in s\<lparr>ticks_received_this_sec := 0, min_lat := dbl 1000000000, max_lat := 0,
                  sum_lat := 0, last_report_time := now\<rparr>)
         else s)"

text \<open>
  Lines 95 to 248, for a datagram of the full size: the recovery when a gap is seen,
  the metrics, the cursor, and the trading rule \<open>strategy\<close> (lines 167 to 248) on the
  tick received, which gives its new state and the lines it prints.
\<close>

definition on_tick ::
  "(u64 \<Rightarrow> 'd) \<Rightarrow> ('d TickPacket \<Rightarrow> 'c \<Rightarrow> 'c \<times> 'o list) \<Rightarrow> (u64 \<Rightarrow> 'd tcp_result) \<Rightarrow>
   u64 \<Rightarrow> int \<Rightarrow> 'd TickPacket \<Rightarrow>
   ('d::{zero,plus,inverse,ord}, 'c, 'o) subscriber \<Rightarrow> ('d, 'c, 'o) subscriber" where
  "on_tick dbl strategy tcp clock_ns now tick s =
     (let s = (if expected_seq s \<noteq> 0 \<and> sequence_num tick > expected_seq s
               then s\<lparr>out := out s @ GapDetected (expected_seq s) (sequence_num tick) #
                                      recover tcp (expected_seq s) (sequence_num tick)\<rparr>
               else s);
          s = metrics dbl clock_ns now tick s;
          s = s\<lparr>expected_seq := sequence_num tick + 1\<rparr>;
          (c, printed) = strategy tick (consumer s)
      in s\<lparr>consumer := c, out := out s @ map StrategyPrint printed\<rparr>)"

text \<open>
  What the process meets, one entry for each pass of the loop: \<^verbatim>\<open>recvfrom\<close> returning
  \<open>received\<close> with the buffer \<open>tick\<close> (with the recovery channel and the two clock
  readings of that pass), or the interrupt signal. The process ends with an exit code,
  or has read all its input and waits in \<^verbatim>\<open>recvfrom\<close>.
\<close>

datatype 'd sub_input =
  RecvFrom int "'d TickPacket" "u64 \<Rightarrow> 'd tcp_result" u64 int
| Signal

datatype ('d, 'c, 'o) outcome =
  Exit int "('d, 'c, 'o) subscriber"
| Waiting "('d, 'c, 'o) subscriber"

text \<open>\<^verbatim>\<open>signal_handler\<close>: the report, then \<^verbatim>\<open>exit(signum)\<close>.\<close>

definition signal_handler :: "int \<Rightarrow> ('d, 'c, 'o) subscriber \<Rightarrow> ('d, 'c, 'o) outcome" where
  "signal_handler signum s = Exit signum (s\<lparr>out := out s @ [FinalReport]\<rparr>)"

text \<open>
  The loop of lines 86 to 254; \<open>keep_running\<close> is never cleared. \<open>SIGINT\<close> is the number
  of the signal the handler is installed for.
\<close>

fun ingest ::
  "(u64 \<Rightarrow> 'd) \<Rightarrow> ('d TickPacket \<Rightarrow> 'c \<Rightarrow> 'c \<times> 'o list) \<Rightarrow> int \<Rightarrow>
   ('d::{zero,plus,inverse,ord}, 'c, 'o) subscriber \<Rightarrow> 'd sub_input list \<Rightarrow> ('d, 'c, 'o) outcome" where
  "ingest dbl strategy SIGINT s [] = Waiting s"
| "ingest dbl strategy SIGINT s (Signal # rest) = signal_handler SIGINT s"
| "ingest dbl strategy SIGINT s (RecvFrom received tick tcp clock_ns now # rest) =
     (if received = 32 then ingest dbl strategy SIGINT (on_tick dbl strategy tcp clock_ns now tick s) rest
      else if received < 0 then Exit 0 (s\<lparr>out := out s @ [UdpReceiveFailed]\<rparr>)
      else ingest dbl strategy SIGINT s rest)"

text \<open>
  \<^verbatim>\<open>main\<close>: \<open>setup_ok\<close> is false when \<^verbatim>\<open>create_udp_multicast_receiver\<close> throws, which
  the handler of line 256 turns into the exit code 1; \<open>start\<close> is the reading of the
  steady clock at line 83.
\<close>

definition subscriber_main ::
  "(u64 \<Rightarrow> 'd) \<Rightarrow> ('d TickPacket \<Rightarrow> 'c \<Rightarrow> 'c \<times> 'o list) \<Rightarrow> 'c \<Rightarrow> int \<Rightarrow> bool \<Rightarrow> int \<Rightarrow>
   'd sub_input list \<Rightarrow> ('d::{zero,plus,inverse,ord}, 'c, 'o) outcome" where
  "subscriber_main dbl strategy c0 SIGINT setup_ok start inputs =
     (let s = \<lparr>expected_seq = 0, ticks_received_this_sec = 0, min_lat = dbl 1000000000,
                max_lat = 0, sum_lat = 0, last_report_time = start, last_recv_tick = zero_tick,
                consumer = c0, out = [Starting]\<rparr>
      in if \<not> setup_ok then Exit 1 (s\<lparr>out := out s @ [FatalError]\<rparr>)
         else ingest dbl strategy SIGINT (s\<lparr>out := out s @ [Listening]\<rparr>) inputs)"

definition exit_code :: "('d, 'c, 'o) outcome \<Rightarrow> int option" where
  "exit_code r = (case r of Exit n s \<Rightarrow> Some n | Waiting s \<Rightarrow> None)"

definition final :: "('d, 'c, 'o) outcome \<Rightarrow> ('d, 'c, 'o) subscriber" where
  "final r = (case r of Exit n s \<Rightarrow> s | Waiting s \<Rightarrow> s)"

text \<open>The metrics line of a pass, if there is one: what \<open>metrics\<close> adds to the output.\<close>

definition metrics_line ::
  "(u64 \<Rightarrow> 'd) \<Rightarrow> u64 \<Rightarrow> int \<Rightarrow> 'd TickPacket \<Rightarrow>
   ('d::{zero,plus,inverse,ord}, 'c, 'o) subscriber \<Rightarrow> ('d, 'o) sub_event list" where
  "metrics_line dbl clock_ns now tick s = out (metrics dbl clock_ns now tick (s\<lparr>out := []\<rparr>))"

fun is_metrics :: "('d, 'o) sub_event \<Rightarrow> bool" where
  "is_metrics (Metrics n lo hi avg name p) = True"
| "is_metrics _ = False"

text \<open>
  The consumer that records what it is given and prints nothing: with it, \<open>consumer\<close>
  is the list of the ticks delivered to the trading rule, in order.
\<close>

definition deliver :: "'d TickPacket \<Rightarrow> 'd TickPacket list \<Rightarrow> 'd TickPacket list \<times> 'o list" where
  "deliver tick delivered = (delivered @ [tick], [])"

text \<open>Input that keeps the loop running: no signal and no failed receive.\<close>

fun keeps_running :: "'d sub_input list \<Rightarrow> bool" where
  "keeps_running [] = True"
| "keeps_running (Signal # rest) = False"
| "keeps_running (RecvFrom received tick tcp clock_ns now # rest) =
     (0 \<le> received \<and> keeps_running rest)"

text \<open>The ticks of the full-size datagrams, up to the first event that ends the loop.\<close>

fun arrivals :: "'d sub_input list \<Rightarrow> 'd TickPacket list" where
  "arrivals [] = []"
| "arrivals (Signal # rest) = []"
| "arrivals (RecvFrom received tick tcp clock_ns now # rest) =
     (if received = 32 then tick # arrivals rest
      else if received < 0 then [] else arrivals rest)"

section \<open>Example inputs\<close>

text \<open>
  For the concrete cases below: prices in \<open>real\<close> with the exact conversion, the tick of
  sequence number \<open>n\<close> with every other member zero, a subscriber at rest with a given
  cursor and consumer state, a full-size datagram met with both clocks at 0, and a
  trading rule that records the tick and prints its sequence number.
\<close>

abbreviation to_real :: "u64 \<Rightarrow> real" where
  "to_real \<equiv> \<lambda>w. real (unat w)"

abbreviation seq_tick :: "u64 \<Rightarrow> real TickPacket" where
  "seq_tick n \<equiv> zero_tick\<lparr>sequence_num := n\<rparr>"

abbreviation at_rest :: "u64 \<Rightarrow> 'c \<Rightarrow> (real, 'c, 'o) subscriber" where
  "at_rest cursor c \<equiv>
     \<lparr>expected_seq = cursor, ticks_received_this_sec = 0, min_lat = 1000000000, max_lat = 0,
      sum_lat = 0, last_report_time = 0, last_recv_tick = zero_tick, consumer = c, out = []\<rparr>"

abbreviation datagram :: "u64 \<Rightarrow> (u64 \<Rightarrow> real tcp_result) \<Rightarrow> real sub_input" where
  "datagram n tcp \<equiv> RecvFrom 32 (seq_tick n) tcp 0 0"

abbreviation echo :: "real TickPacket \<Rightarrow> real TickPacket list \<Rightarrow> real TickPacket list \<times> u64 list" where
  "echo \<equiv> \<lambda>tick delivered. (delivered @ [tick], [sequence_num tick])"

section \<open>Properties\<close>

subsection \<open>Facts about the ring\<close>

lemma ring_wf_new: "0 < Capacity \<Longrightarrow> ring_wf Capacity (new_ring Capacity d)"
  by (simp add: ring_wf_def new_ring_def)

lemma ring_wf_push: "ring_wf Capacity r \<Longrightarrow> ring_wf Capacity (push Capacity s t r)"
  by (simp add: ring_wf_def push_def Let_def)

lemma index_in_range: "0 < Capacity \<Longrightarrow> unat (s mod Capacity) < unat (Capacity :: u64)"
  by (simp add: unat_mod word_less_nat_alt)

lemma max_seq_push: "max_seq (push Capacity s t r) = max (max_seq r) s"
  by (auto simp: push_def Let_def max_def)

lemma get_slot_holds:
  assumes "slot_holds Capacity s t r"
  shows "get Capacity s r = Some t"
proof -
  have lt: "unat (max_seq r) < unat s + unat Capacity"
    using assms by (simp add: slot_holds_def)
  have "\<not> (max_seq r \<ge> Capacity \<and> s \<le> max_seq r - Capacity)"
  proof
    assume a: "max_seq r \<ge> Capacity \<and> s \<le> max_seq r - Capacity"
    then have "unat (max_seq r - Capacity) = unat (max_seq r) - unat Capacity"
      by (simp add: unat_sub)
    with a have "unat s \<le> unat (max_seq r) - unat Capacity" "unat Capacity \<le> unat (max_seq r)"
      by (simp_all add: word_le_nat_alt)
    with lt show False by arith
  qed
  with assms show ?thesis
    by (simp add: get_def slot_holds_def Let_def)
qed

lemma mod_neq_of_close:
  fixes a b c :: nat
  assumes "a < b" "b < a + c"
  shows "a mod c \<noteq> b mod c"
proof
  assume "a mod c = b mod c"
  then have "c dvd b - a"
    using assms(1) by (metis mod_eq_dvd_iff_nat less_imp_le_nat)
  moreover have "0 < b - a" "b - a < c" using assms by arith+
  ultimately show False by (auto dest: dvd_imp_le)
qed

lemma index_neq:
  fixes s s' Capacity :: u64
  assumes "s < s'" "unat s' < unat s + unat Capacity"
  shows "unat (s' mod Capacity) \<noteq> unat (s mod Capacity)"
  using mod_neq_of_close [of "unat s" "unat s'" "unat Capacity"] assms
  by (simp add: unat_mod word_less_nat_alt)

lemma slot_holds_push_other:
  assumes "slot_holds Capacity s t r" "s < s'" "unat s' < unat s + unat Capacity"
  shows "slot_holds Capacity s t (push Capacity s' t' r)"
proof -
  have ne: "unat (s' mod Capacity) \<noteq> unat (s mod Capacity)"
    using assms(2,3) by (rule index_neq)
  have "unat (max (max_seq r) s') < unat s + unat Capacity"
    using assms by (simp add: slot_holds_def max_def)
  moreover have "ring_wf Capacity (push Capacity s' t' r)"
    using assms(1) by (simp add: slot_holds_def ring_wf_push)
  moreover have "seq_nums (push Capacity s' t' r) ! unat (s mod Capacity) = s"
    "buffer (push Capacity s' t' r) ! unat (s mod Capacity) = t"
    using assms(1) ne by (simp_all add: slot_holds_def push_def Let_def)
  ultimately show ?thesis
    by (simp add: slot_holds_def max_seq_push)
qed

lemma slot_holds_push_self:
  assumes "ring_wf Capacity r" "unat (max_seq r) < unat s + unat Capacity"
  shows "slot_holds Capacity s t (push Capacity s t r)"
proof -
  have "0 < unat Capacity" using assms(1) by (simp add: ring_wf_def word_less_nat_alt)
  then have "unat (max (max_seq r) s) < unat s + unat Capacity"
    using assms(2) by (simp add: max_def)
  moreover have i: "unat (s mod Capacity) < unat Capacity"
    using assms(1) by (simp add: ring_wf_def index_in_range)
  moreover have "seq_nums (push Capacity s t r) ! unat (s mod Capacity) = s"
    "buffer (push Capacity s t r) ! unat (s mod Capacity) = t"
    using assms(1) i by (simp_all add: ring_wf_def push_def Let_def)
  ultimately show ?thesis
    using assms(1) by (simp add: slot_holds_def max_seq_push ring_wf_push)
qed

lemma slot_holds_pushes:
  assumes "slot_holds Capacity s t r"
    and "\<forall>(s', t') \<in> set ps. s < s' \<and> unat s' < unat s + unat Capacity"
  shows "slot_holds Capacity s t (pushes Capacity ps r)"
  using assms
proof (induction ps arbitrary: r)
  case Nil
  then show ?case by simp
next
  case (Cons p ps)
  obtain s' t' where p: "p = (s', t')" by (cases p)
  with Cons.prems have "slot_holds Capacity s t (push Capacity s' t' r)"
    by (simp add: slot_holds_push_other)
  with Cons show ?case by (simp add: p)
qed

lemma unat_succ_le: "unat (s + 1 :: u64) \<le> unat s + 1"
  by (simp add: unat_word_ariths)

lemma unat_succ_eq: "unat (s :: u64) + 1 < 2 ^ 64 \<Longrightarrow> unat (s + 1) = unat s + 1"
  by (simp add: unat_word_ariths)

lemma slot_holds_push_seq:
  assumes "slot_holds Capacity s t r"
    and "ts \<noteq> [] \<Longrightarrow> s < s'"
    and "unat s' + length ts \<le> unat s + unat Capacity"
    and "unat s' + length ts \<le> 2 ^ 64"
  shows "slot_holds Capacity s t (push_seq Capacity s' ts r)"
  using assms
proof (induction ts arbitrary: r s')
  case Nil
  then show ?case by simp
next
  case (Cons t' ts)
  have lt: "s < s'" using Cons.prems(2) by simp
  have b: "unat s' < unat s + unat Capacity" using Cons.prems(3) by simp
  have h: "slot_holds Capacity s t (push Capacity s' t' r)"
    using Cons.prems(1) lt b by (rule slot_holds_push_other)
  have le: "unat (s' + 1) \<le> unat s' + 1" by (rule unat_succ_le)
  have "slot_holds Capacity s t (push_seq Capacity (s' + 1) ts (push Capacity s' t' r))"
  proof (rule Cons.IH [OF h])
    assume "ts \<noteq> []"
    then have "0 < length ts" by simp
    with Cons.prems(4) have "unat s' + 1 < 2 ^ 64" by (simp del: length_greater_0_conv)
    then have "unat (s' + 1) = unat s' + 1" by (rule unat_succ_eq)
    with lt show "s < s' + 1" by (simp add: word_less_nat_alt)
  next
    show "unat (s' + 1) + length ts \<le> unat s + unat Capacity"
      using le Cons.prems(3) by simp
  next
    show "unat (s' + 1) + length ts \<le> 2 ^ 64"
      using le Cons.prems(4) by simp
  qed
  then show ?case by simp
qed

lemma get_new_ring_zero: "0 < Capacity \<Longrightarrow> get Capacity 0 (new_ring Capacity d) = Some d"
  by (simp add: get_def new_ring_def word_less_nat_alt word_le_nat_alt)

lemma get_new_ring_pos:
  assumes "0 < Capacity" "s \<noteq> 0"
  shows "get Capacity s (new_ring Capacity d) = None"
proof -
  have "unat (s mod Capacity) < unat Capacity" using assms(1) by (rule index_in_range)
  then show ?thesis using assms
    by (simp add: get_def new_ring_def word_le_nat_alt word_less_nat_alt)
qed

lemma get_above_max:
  assumes "slots_bounded Capacity r" "max_seq r < s"
  shows "get Capacity s r = None"
proof -
  have "0 < Capacity" using assms(1) by (simp add: slots_bounded_def ring_wf_def)
  then have "unat (s mod Capacity) < unat Capacity" by (rule index_in_range)
  with assms(1) have "seq_nums r ! unat (s mod Capacity) \<le> max_seq r"
    by (simp add: slots_bounded_def)
  with assms(2) have "seq_nums r ! unat (s mod Capacity) \<noteq> s" by auto
  then show ?thesis by (simp add: get_def Let_def)
qed

lemma get_Some_slot:
  assumes "get Capacity s r = Some t" "ring_wf Capacity r"
  shows "\<exists>i < unat Capacity. t = buffer r ! i"
proof -
  have "0 < Capacity" using assms(2) by (simp add: ring_wf_def)
  then have "unat (s mod Capacity) < unat Capacity" by (rule index_in_range)
  moreover have "t = buffer r ! unat (s mod Capacity)"
    using assms(1) by (simp add: get_def Let_def split: if_splits)
  ultimately show ?thesis by blast
qed

lemma length_le_bytes: "length (le_bytes n w) = n"
  by (simp add: le_bytes_def)

lemma length_tick_bytes: "tick_wf t \<Longrightarrow> length (tick_bytes bits t) = 32"
  by (simp add: tick_bytes_def tick_wf_def length_le_bytes)

lemma slots_bounded_new: "0 < Capacity \<Longrightarrow> slots_bounded Capacity (new_ring Capacity zero_tick)"
  by (simp add: slots_bounded_def ring_wf_new) (simp add: new_ring_def tick_wf_def zero_tick_def)

lemma slots_bounded_push:
  assumes "slots_bounded Capacity r" "tick_wf t"
  shows "slots_bounded Capacity (push Capacity s t r)"
proof -
  have wf: "ring_wf Capacity r" using assms(1) by (simp add: slots_bounded_def)
  have "\<forall>i < unat Capacity. tick_wf (buffer (push Capacity s t r) ! i)"
  proof (intro allI impI)
    fix i assume i: "i < unat Capacity"
    then have "tick_wf (buffer r ! i)" using assms(1) by (simp add: slots_bounded_def)
    moreover have "buffer (push Capacity s t r) ! i = (if i = unat (s mod Capacity) then t else buffer r ! i)"
      using wf i by (simp add: ring_wf_def push_def Let_def nth_list_update)
    ultimately show "tick_wf (buffer (push Capacity s t r) ! i)"
      using assms(2) by simp
  qed
  moreover have "\<forall>i < unat Capacity. seq_nums (push Capacity s t r) ! i \<le> max_seq (push Capacity s t r)"
  proof (intro allI impI)
    fix i assume i: "i < unat Capacity"
    then have "seq_nums r ! i \<le> max_seq r" using assms(1) by (simp add: slots_bounded_def)
    then have "seq_nums r ! i \<le> max (max_seq r) s" by (rule max.coboundedI1)
    moreover have "seq_nums (push Capacity s t r) ! i = (if i = unat (s mod Capacity) then s else seq_nums r ! i)"
      using wf i by (simp add: ring_wf_def push_def Let_def nth_list_update)
    ultimately show "seq_nums (push Capacity s t r) ! i \<le> max_seq (push Capacity s t r)"
      by (simp add: max_seq_push)
  qed
  ultimately show ?thesis using wf by (simp add: slots_bounded_def ring_wf_push)
qed

subsection \<open>The ring keeps a pushed tick while the pushes stay within its capacity\<close>

text \<open>
  Claim C4, as the code has it. Let the ring be well-formed with \<open>max_seq\<close> less than
  \<open>Capacity\<close> ahead of \<open>s\<close>. After \<open>push(s, t)\<close>, \<open>get(s)\<close> returns \<open>t\<close> after any run of
  further pushes whose sequence numbers \<open>s'\<close> all satisfy \<open>s < s' < s + Capacity\<close>, in any
  order and with gaps or repetitions among them.
\<close>

theorem get_after_pushes_in_window:
  assumes "ring_wf Capacity r"
    and "unat (max_seq r) < unat s + unat Capacity"
    and "\<forall>(s', t') \<in> set ps. s < s' \<and> unat s' < unat s + unat Capacity"
  shows "get Capacity s (pushes Capacity ps (push Capacity s t r)) = Some t"
proof -
  have "slot_holds Capacity s t (push Capacity s t r)"
    using assms(1,2) by (rule slot_holds_push_self)
  then have "slot_holds Capacity s t (pushes Capacity ps (push Capacity s t r))"
    using assms(3) by (rule slot_holds_pushes)
  then show ?thesis by (rule get_slot_holds)
qed

theorem get_after_pushes_in_window_witness:
  "ring_wf 3 (new_ring 3 '''') \<and>
   unat (max_seq (new_ring 3 '''')) < unat (1 :: u64) + unat (3 :: u64) \<and>
   (1 :: u64) < 2 \<and> unat (2 :: u64) < unat (1 :: u64) + unat (3 :: u64) \<and>
   (1 :: u64) < 3 \<and> unat (3 :: u64) < unat (1 :: u64) + unat (3 :: u64) \<and>
   get 3 1 (pushes 3 [(2, ''b''), (3, ''c'')] (push 3 1 ''a'' (new_ring 3 ''''))) = Some ''a''"
proof -
  have h1: "ring_wf 3 (new_ring 3 '''')" by (simp add: ring_wf_new)
  have h2: "unat (max_seq (new_ring 3 '''')) < unat (1 :: u64) + unat (3 :: u64)"
    by (simp add: new_ring_def)
  have h3: "\<forall>(s', t') \<in> set [(2, ''b''), (3, ''c'')]. (1 :: u64) < s' \<and> unat s' < unat (1 :: u64) + unat (3 :: u64)"
    by simp
  show ?thesis
    using h1 h2 h3 get_after_pushes_in_window [OF h1 h2 h3, of "''a''"] by simp
qed

text \<open>
  Claim C4 as it is stated fails: with capacity 3, one further push, of the greater
  sequence number 4, takes the slot of sequence number 1, and \<open>get(1)\<close> is absent.
\<close>

theorem get_after_far_push_counterexample:
  "length [(4 :: u64, ''b'')] < unat (3 :: u64) \<and> (1 :: u64) < 4 \<and>
   get 3 1 (pushes 3 [(4, ''b'')] (push 3 1 ''a'' (new_ring 3 ''''))) = None"
  by code_simp

subsection \<open>The empty ring\<close>

text \<open>
  Claim C10. On a ring with no pushes whose recorded sequence numbers are all zero,
  \<open>get(0)\<close> succeeds with the default item, and \<open>get(s)\<close> is absent for every \<open>s \<ge> 1\<close>.
\<close>

theorem empty_ring_reports_zero:
  "0 < Capacity \<Longrightarrow>
     get Capacity 0 (new_ring Capacity d) = Some d \<and>
     (\<forall>s \<ge> 1. get Capacity s (new_ring Capacity d) = None)"
  by (auto simp: get_new_ring_zero intro!: get_new_ring_pos)

theorem empty_ring_reports_zero_witness:
  "0 < RING_BUFFER_SIZE \<and>
   get RING_BUFFER_SIZE 0 (new_ring RING_BUFFER_SIZE (zero_tick :: real TickPacket)) = Some zero_tick \<and>
   get RING_BUFFER_SIZE 1 (new_ring RING_BUFFER_SIZE (zero_tick :: real TickPacket)) = None \<and>
   get RING_BUFFER_SIZE 10000 (new_ring RING_BUFFER_SIZE (zero_tick :: real TickPacket)) = None"
proof -
  have h: "0 < RING_BUFFER_SIZE" by (simp add: RING_BUFFER_SIZE_def)
  show ?thesis
    using h empty_ring_reports_zero [OF h, of "zero_tick :: real TickPacket"] by simp
qed

subsection \<open>The retransmission server\<close>

text \<open>
  On a ring that satisfies \<open>slots_bounded\<close>, as a ring whose storage was zero does after
  any pushes of ticks of the struct (\<open>slots_bounded_new\<close>, \<open>slots_bounded_push\<close>), the
  response to any request is empty or 32 bytes long; a request above \<open>max_seq\<close> gets the
  empty response; and a request for \<open>s\<close>, after \<open>push(s, t)\<close> and fewer than \<open>Capacity\<close>
  later pushes of the consecutive sequence numbers \<open>s + 1\<close>, \<open>s + 2\<close>, ..., gets the 32
  bytes of \<open>t\<close>.
\<close>

lemma retransmit_response_bounded:
  assumes "slots_bounded Capacity r"
  shows "(retransmit_server bits Capacity r bytes_read req = [] \<or>
          length (retransmit_server bits Capacity r bytes_read req) = 32) \<and>
         (max_seq r < missed_sequence_num req \<longrightarrow>
          retransmit_server bits Capacity r bytes_read req = []) \<and>
         (tick_wf t \<and> length ts < unat Capacity \<and> unat s + length ts < 2 ^ 64 \<and>
          unat (max_seq r) < unat s + unat Capacity \<and> missed_sequence_num req = s \<longrightarrow>
          retransmit_server bits Capacity
            (push_seq Capacity (s + 1) ts (push Capacity s t r)) 8 req = tick_bytes bits t \<and>
          length (tick_bytes bits t) = 32)"
proof (intro conjI impI)
  have wf: "ring_wf Capacity r" using assms by (simp add: slots_bounded_def)
  show "retransmit_server bits Capacity r bytes_read req = [] \<or>
        length (retransmit_server bits Capacity r bytes_read req) = 32"
  proof (cases "get Capacity (missed_sequence_num req) r")
    case None
    then show ?thesis by (simp add: retransmit_server_def)
  next
    case (Some u)
    then obtain i where "i < unat Capacity" "u = buffer r ! i"
      using get_Some_slot [OF Some wf] by blast
    then have "tick_wf u" using assms by (simp add: slots_bounded_def)
    then show ?thesis using Some by (simp add: retransmit_server_def length_tick_bytes)
  qed
next
  assume "max_seq r < missed_sequence_num req"
  then have "get Capacity (missed_sequence_num req) r = None"
    using assms by (simp add: get_above_max)
  then show "retransmit_server bits Capacity r bytes_read req = []"
    by (simp add: retransmit_server_def)
next
  assume a: "tick_wf t \<and> length ts < unat Capacity \<and> unat s + length ts < 2 ^ 64 \<and>
          unat (max_seq r) < unat s + unat Capacity \<and> missed_sequence_num req = s"
  have wf: "ring_wf Capacity r" using assms by (simp add: slots_bounded_def)
  have h: "slot_holds Capacity s t (push Capacity s t r)"
    using wf a by (simp add: slot_holds_push_self)
  have "slot_holds Capacity s t (push_seq Capacity (s + 1) ts (push Capacity s t r))"
  proof (rule slot_holds_push_seq [OF h])
    assume "ts \<noteq> []"
    then have "0 < length ts" by simp
    with a have "unat s + 1 < 2 ^ 64" by (simp del: length_greater_0_conv)
    then have "unat (s + 1) = unat s + 1" by (rule unat_succ_eq)
    then show "s < s + 1" by (simp add: word_less_nat_alt)
  next
    have "unat (s + 1) \<le> unat s + 1" by (rule unat_succ_le)
    with a show "unat (s + 1) + length ts \<le> unat s + unat Capacity" by simp
  next
    have "unat (s + 1) \<le> unat s + 1" by (rule unat_succ_le)
    with a show "unat (s + 1) + length ts \<le> 2 ^ 64" by simp
  qed
  then have "get Capacity s (push_seq Capacity (s + 1) ts (push Capacity s t r)) = Some t"
    by (rule get_slot_holds)
  with a show "retransmit_server bits Capacity
            (push_seq Capacity (s + 1) ts (push Capacity s t r)) 8 req = tick_bytes bits t"
    by (simp add: retransmit_server_def)
next
  assume a: "tick_wf t \<and> length ts < unat Capacity \<and> unat s + length ts < 2 ^ 64 \<and>
          unat (max_seq r) < unat s + unat Capacity \<and> missed_sequence_num req = s"
  then show "length (tick_bytes bits t) = 32" by (simp add: length_tick_bytes)
qed

lemma length_strncpy: "n \<le> length dest \<Longrightarrow> length (strncpy dest src n) = length dest"
  by (simp add: strncpy_def)

lemma tick_wf_make_tick: "tick_wf (make_tick sq sym_idx pr now)"
  by (simp add: tick_wf_def make_tick_def zero_tick_def length_strncpy)

lemma ring_buffer_tick_step:
  "\<exists>tick. tick_wf tick \<and>
     ring_buffer (tick_step d p) = push RING_BUFFER_SIZE (seq_num p) tick (ring_buffer p)"
proof -
  obtain published cp where g: "gen_price d (current_prices p) = (published, cp)"
    by (cases "gen_price d (current_prices p)")
  have "ring_buffer (tick_step d p) =
      push RING_BUFFER_SIZE (seq_num p)
        (make_tick (seq_num p) (sym_dist d) published (now_ns d)) (ring_buffer p)"
    by (simp add: tick_step_def g Let_def)
  then show ?thesis using tick_wf_make_tick by blast
qed

lemma slots_bounded_tick_step:
  assumes "slots_bounded RING_BUFFER_SIZE (ring_buffer p)"
  shows "slots_bounded RING_BUFFER_SIZE (ring_buffer (tick_step d p))"
proof -
  obtain tick where "tick_wf tick"
    "ring_buffer (tick_step d p) = push RING_BUFFER_SIZE (seq_num p) tick (ring_buffer p)"
    using ring_buffer_tick_step by blast
  then show ?thesis using assms by (simp add: slots_bounded_push)
qed

lemma seq_num_tick_step: "seq_num (tick_step d p) = seq_num p + 1"
  by (simp add: tick_step_def Let_def split: prod.splits)

text \<open>
  Claim C5, on the ring the publisher has. The ring is default-initialised and its
  arrays have no initialiser, so a slot can record a sequence number that was never
  pushed. With slot 5 recording 5 and nothing pushed, \<open>max_seq\<close> is 0 and the request
  for 5, above \<open>max_seq\<close>, is answered with the 32 bytes of the tick the slot holds, where
  the claim has the empty response.
\<close>

theorem retransmit_serves_unpushed_sequence:
  "ring_wf RING_BUFFER_SIZE
     (default_ring (replicate 10000 (zero_tick :: double TickPacket)) ((replicate 10000 0)[5 := 5])) \<and>
   max_seq (default_ring (replicate 10000 (zero_tick :: double TickPacket)) ((replicate 10000 0)[5 := 5])) < 5 \<and>
   (\<forall>bits. retransmit_server bits RING_BUFFER_SIZE
      (default_ring (replicate 10000 (zero_tick :: double TickPacket)) ((replicate 10000 0)[5 := 5]))
      8 \<lparr>missed_sequence_num = 5\<rparr> = tick_bytes bits zero_tick \<and>
    length (tick_bytes bits (zero_tick :: double TickPacket)) = 32)"
proof -
  let ?r = "default_ring (replicate 10000 (zero_tick :: double TickPacket)) ((replicate 10000 0)[5 := 5])"
  have i: "unat ((5 :: u64) mod 10000) = 5" by (simp add: unat_mod)
  have wf: "ring_wf RING_BUFFER_SIZE ?r"
    by (simp add: ring_wf_def default_ring_def RING_BUFFER_SIZE_def)
  have m: "max_seq ?r < 5" by (simp add: default_ring_def)
  have g: "get RING_BUFFER_SIZE 5 ?r = Some zero_tick"
    by (simp add: get_def default_ring_def RING_BUFFER_SIZE_def i word_le_nat_alt)
  have l: "length (tick_bytes bits (zero_tick :: double TickPacket)) = 32" for bits
    by (simp add: length_tick_bytes tick_wf_def zero_tick_def)
  show ?thesis using wf m g l by (simp add: retransmit_server_def)
qed

subsection \<open>The symbol field\<close>

lemma symbols_no_NUL: "\<forall>s \<in> set symbols. NUL \<notin> set s \<and> length s \<le> 4"
  by (simp add: symbols_def)

lemma length_symbols: "length symbols = 50"
  by (simp add: symbols_def)

lemma strncpy_no_NUL:
  assumes "NUL \<notin> set src"
  shows "strncpy dest src n = take n src @ replicate (n - length src) NUL @ drop n dest"
proof -
  have tw: "takeWhile (\<lambda>c. c \<noteq> NUL) src = src" using assms by auto
  show ?thesis unfolding strncpy_def tw by simp
qed

lemma symbol_make_tick:
  "symbol (make_tick sq sym_idx pr now) = strncpy (replicate 4 NUL) (symbols ! sym_idx) 3"
  by (simp add: make_tick_def zero_tick_def)

text \<open>
  Claim C6, as the code has it. The copy is bounded by \<open>sizeof(tick.symbol) - 1 = 3\<close>, so
  the field is the first three characters of the chosen symbol at most, padded with NUL
  to four bytes: the fourth byte is always NUL, and a symbol of up to three characters
  is carried in full.
\<close>

theorem symbol_field_terminated:
  assumes "sym_idx < length symbols"
  shows "symbol (make_tick sq sym_idx pr now) =
           take 3 (symbols ! sym_idx) @ replicate (4 - min 3 (length (symbols ! sym_idx))) NUL \<and>
         length (symbol (make_tick sq sym_idx pr now)) = 4 \<and>
         symbol (make_tick sq sym_idx pr now) ! 3 = NUL \<and>
         (length (symbols ! sym_idx) \<le> 3 \<longrightarrow>
            symbol (make_tick sq sym_idx pr now) =
              symbols ! sym_idx @ replicate (4 - length (symbols ! sym_idx)) NUL)"
proof -
  let ?s = "symbols ! sym_idx"
  have "?s \<in> set symbols" using assms by simp
  then have nn: "NUL \<notin> set ?s" using symbols_no_NUL by blast
  have "replicate (3 - length ?s) NUL @ [NUL] = replicate (Suc (3 - length ?s)) NUL"
    by (simp add: replicate_append_same)
  moreover have "Suc (3 - length ?s) = 4 - min 3 (length ?s)"
    by arith
  ultimately have pad: "replicate (3 - length ?s) NUL @ [NUL] =
      replicate (4 - min 3 (length ?s)) NUL"
    by simp
  have "symbol (make_tick sq sym_idx pr now) =
      take 3 ?s @ replicate (3 - length ?s) NUL @ [NUL]"
    by (simp add: symbol_make_tick strncpy_no_NUL [OF nn])
  with pad have eq: "symbol (make_tick sq sym_idx pr now) =
      take 3 ?s @ replicate (4 - min 3 (length ?s)) NUL"
    by simp
  have len: "length (take 3 ?s @ replicate (4 - min 3 (length ?s)) NUL) = 4"
    by (simp add: min_def)
  have last: "(take 3 ?s @ replicate (4 - min 3 (length ?s)) NUL) ! 3 = NUL"
    by (simp add: nth_append min_def)
  show ?thesis using eq len last by (simp add: min_def)
qed

theorem symbol_field_terminated_witness:
  "(9 :: nat) < length symbols \<and> length (symbols ! 9) \<le> 3 \<and>
   symbol (make_tick 1 9 (163 :: real) 0) = [CHR ''V'', NUL, NUL, NUL] \<and>
   (7 :: nat) < length symbols \<and>
   symbol (make_tick 1 7 (149 :: real) 0) = [CHR ''J'', CHR ''P'', CHR ''M'', NUL]"
proof -
  have h9: "(9 :: nat) < length symbols" and h7: "(7 :: nat) < length symbols"
    by (simp_all add: length_symbols)
  have s9: "symbols ! 9 = ''V''" and s7: "symbols ! 7 = ''JPM''"
    by (simp_all add: symbols_def)
  show ?thesis
    using h9 h7 s9 s7
      symbol_field_terminated [OF h9, of 1 "163 :: real" 0]
      symbol_field_terminated [OF h7, of 1 "149 :: real" 0]
    by (simp add: numeral_3_eq_3)
qed

text \<open>
  Claim C6 as it is stated fails: of the four characters of \<open>AAPL\<close> the field carries
  three, and the terminator.
\<close>

theorem symbol_four_chars_counterexample:
  "symbols ! 0 = ''AAPL'' \<and>
   symbol (make_tick 1 0 (100 :: real) 0) = [CHR ''A'', CHR ''A'', CHR ''P'', NUL] \<and>
   symbol (make_tick 1 0 (100 :: real) 0) \<noteq> ''AAPL''"
  by (simp add: make_tick_def zero_tick_def strncpy_def symbols_def)

subsection \<open>The transient anomaly\<close>

lemma gen_price_anomaly:
  assumes "fundamental_dist d \<noteq> 1" "anomaly_dist d = 1"
  shows "gen_price d cp =
           (random_walk (sym_dist d) (price_delta_dist d) cp ! sym_dist d -
              random_walk (sym_dist d) (price_delta_dist d) cp ! sym_dist d * anomaly_depth d,
            random_walk (sym_dist d) (price_delta_dist d) cp)"
  using assms by (simp add: gen_price_def shocks_def Let_def)

lemma random_walk_nth:
  assumes "sym_idx < length cp"
  shows "random_walk sym_idx delta cp ! sym_idx =
           (if cp ! sym_idx + cp ! sym_idx * delta < 1 then 1 else cp ! sym_idx + cp ! sym_idx * delta)"
  using assms by (simp add: random_walk_def Let_def)

lemma price_make_tick: "price (make_tick sq sym_idx pr now) = pr"
  by (simp add: make_tick_def)

lemma tick_step_gen:
  assumes "gen_price d (current_prices p) = (published, cp)"
  shows "tick_step d p =
           p\<lparr>current_prices := cp,
             ring_buffer := push RING_BUFFER_SIZE (seq_num p)
                              (make_tick (seq_num p) (sym_dist d) published (now_ns d)) (ring_buffer p),
             wire := (if drop_dist d \<noteq> 1 \<and> 0 < sendto_result d
                      then wire p @ [make_tick (seq_num p) (sym_dist d) published (now_ns d)]
                      else wire p),
             msgs_sent_this_sec := (if drop_dist d \<noteq> 1 \<and> 0 < sendto_result d
                                    then msgs_sent_this_sec p + 1 else msgs_sent_this_sec p),
             last_sent_tick := make_tick (seq_num p) (sym_dist d) published (now_ns d),
             seq_num := seq_num p + 1\<rparr>"
  using assms by (simp add: tick_step_def Let_def)

text \<open>
  A walk of the price 107 of the second symbol by 0.001, and the anomaly of depth 0.025
  on it, in binary64: the difference the code computes and the product.
\<close>

lemma walked_example:
  "random_walk 1 (Double 4611686018427388 (- 62)) [round_double 100 0, round_double 107 0] =
     [Double 7036874417766400 (- 46), Double 7536985082637058 (- 46)]"
  by code_simp

lemma published_example:
  "Double 7536985082637058 (- 46) -
     Double 7536985082637058 (- 46) * Double 7205759403792794 (- 58) =
   Double 7348560455571132 (- 46)"
  by code_simp

lemma product_example:
  "Double 7536985082637058 (- 46) * (1 - Double 7205759403792794 (- 58)) =
   Double 7348560455571131 (- 46)"
  by code_simp

text \<open>
  Claim C9, as the code has it, for any arithmetic of the prices. When the fundamental
  draw is not 1 and the anomaly draw is 1, the tick that is pushed to the ring, sent
  (unless dropped) and kept as the last one sent has the price \<open>p - p * d\<close>, where \<open>p\<close> is
  the walked price and \<open>d\<close> the drawn depth; the price table is the one the random walk
  left, unchanged by the anomaly, and its entry for the symbol is the walked and
  floored value.
\<close>

theorem anomaly_not_persisted:
  fixes p :: "'d::{zero,one,plus,minus,times,ord} publisher"
  assumes "sym_dist d < length (current_prices p)"
    and "fundamental_dist d \<noteq> 1" and "anomaly_dist d = 1"
  shows "let walked = random_walk (sym_dist d) (price_delta_dist d) (current_prices p);
             tick = make_tick (seq_num p) (sym_dist d)
                      (walked ! sym_dist d - walked ! sym_dist d * anomaly_depth d) (now_ns d)
         in price tick = walked ! sym_dist d - walked ! sym_dist d * anomaly_depth d \<and>
            ring_buffer (tick_step d p) = push RING_BUFFER_SIZE (seq_num p) tick (ring_buffer p) \<and>
            wire (tick_step d p) =
              (if drop_dist d \<noteq> 1 \<and> 0 < sendto_result d then wire p @ [tick] else wire p) \<and>
            last_sent_tick (tick_step d p) = tick \<and>
            current_prices (tick_step d p) = walked \<and>
            walked ! sym_dist d =
              (if current_prices p ! sym_dist d + current_prices p ! sym_dist d * price_delta_dist d < 1
               then 1
               else current_prices p ! sym_dist d + current_prices p ! sym_dist d * price_delta_dist d)"
  using assms
  by (simp add: Let_def tick_step_gen [OF gen_price_anomaly] price_make_tick random_walk_nth)

theorem anomaly_not_persisted_witness:
  "price (last_sent_tick (tick_step
     \<lparr>sym_dist = 1, price_delta_dist = Double 4611686018427388 (- 62), fundamental_dist = 2,
      fundamental_depth = Double 5764607523034235 (- 57), anomaly_dist = 1,
      anomaly_depth = Double 7205759403792794 (- 58), drop_dist = 2, now_ns = 0,
      sendto_result = 32\<rparr>
     \<lparr>seq_num = 1, current_prices = [round_double 100 0, round_double 107 0],
      ring_buffer = new_ring RING_BUFFER_SIZE zero_tick, msgs_sent_this_sec = 0,
      last_sent_tick = zero_tick, wire = []\<rparr>)) = Double 7348560455571132 (- 46) \<and>
   map price (wire (tick_step
     \<lparr>sym_dist = 1, price_delta_dist = Double 4611686018427388 (- 62), fundamental_dist = 2,
      fundamental_depth = Double 5764607523034235 (- 57), anomaly_dist = 1,
      anomaly_depth = Double 7205759403792794 (- 58), drop_dist = 2, now_ns = 0,
      sendto_result = 32\<rparr>
     \<lparr>seq_num = 1, current_prices = [round_double 100 0, round_double 107 0],
      ring_buffer = new_ring RING_BUFFER_SIZE zero_tick, msgs_sent_this_sec = 0,
      last_sent_tick = zero_tick, wire = []\<rparr>)) = [Double 7348560455571132 (- 46)] \<and>
   current_prices (tick_step
     \<lparr>sym_dist = 1, price_delta_dist = Double 4611686018427388 (- 62), fundamental_dist = 2,
      fundamental_depth = Double 5764607523034235 (- 57), anomaly_dist = 1,
      anomaly_depth = Double 7205759403792794 (- 58), drop_dist = 2, now_ns = 0,
      sendto_result = 32\<rparr>
     \<lparr>seq_num = 1, current_prices = [round_double 100 0, round_double 107 0],
      ring_buffer = new_ring RING_BUFFER_SIZE zero_tick, msgs_sent_this_sec = 0,
      last_sent_tick = zero_tick, wire = []\<rparr>) =
     [Double 7036874417766400 (- 46), Double 7536985082637058 (- 46)]"
proof -
  let ?d = "\<lparr>sym_dist = 1, price_delta_dist = Double 4611686018427388 (- 62), fundamental_dist = 2,
      fundamental_depth = Double 5764607523034235 (- 57), anomaly_dist = 1,
      anomaly_depth = Double 7205759403792794 (- 58), drop_dist = 2, now_ns = 0,
      sendto_result = 32\<rparr>"
  let ?p = "\<lparr>seq_num = 1, current_prices = [round_double 100 0, round_double 107 0],
      ring_buffer = new_ring RING_BUFFER_SIZE zero_tick, msgs_sent_this_sec = 0,
      last_sent_tick = zero_tick, wire = []\<rparr>"
  have h1: "sym_dist ?d < length (current_prices ?p)" by simp
  have h2: "fundamental_dist ?d \<noteq> 1" by simp
  have h3: "anomaly_dist ?d = 1" by simp
  have w: "random_walk (Suc 0) (Double 4611686018427388 (- 62))
      [round_double 100 0, round_double 107 0] =
      [Double 7036874417766400 (- 46), Double 7536985082637058 (- 46)]"
    using walked_example by simp
  show ?thesis
    using anomaly_not_persisted [OF h1 h2 h3]
    by (simp add: Let_def w published_example price_make_tick)
qed

text \<open>
  Claim C9 as it is stated fails in binary64: for the walked price \<open>p\<close> of 107 walked by
  0.001 and the depth \<open>d\<close> of 0.025, the price of the tick, \<open>p - p * d\<close>, has the
  significand 7348560455571132, and \<open>p * (1 - d)\<close> has 7348560455571131.
\<close>

theorem anomaly_product_counterexample:
  "price (last_sent_tick (tick_step
     \<lparr>sym_dist = 1, price_delta_dist = Double 4611686018427388 (- 62), fundamental_dist = 2,
      fundamental_depth = Double 5764607523034235 (- 57), anomaly_dist = 1,
      anomaly_depth = Double 7205759403792794 (- 58), drop_dist = 2, now_ns = 0,
      sendto_result = 32\<rparr>
     \<lparr>seq_num = 1, current_prices = [round_double 100 0, round_double 107 0],
      ring_buffer = new_ring RING_BUFFER_SIZE zero_tick, msgs_sent_this_sec = 0,
      last_sent_tick = zero_tick, wire = []\<rparr>)) = Double 7348560455571132 (- 46) \<and>
   random_walk 1 (Double 4611686018427388 (- 62)) [round_double 100 0, round_double 107 0] ! 1 *
     (1 - Double 7205759403792794 (- 58)) = Double 7348560455571131 (- 46)"
proof -
  let ?d = "\<lparr>sym_dist = 1, price_delta_dist = Double 4611686018427388 (- 62), fundamental_dist = 2,
      fundamental_depth = Double 5764607523034235 (- 57), anomaly_dist = 1,
      anomaly_depth = Double 7205759403792794 (- 58), drop_dist = 2, now_ns = 0,
      sendto_result = 32\<rparr>"
  have "gen_price ?d [round_double 100 0, round_double 107 0] =
      (Double 7348560455571132 (- 46),
       [Double 7036874417766400 (- 46), Double 7536985082637058 (- 46)])"
    using walked_example by (simp add: gen_price_anomaly published_example)
  moreover have "random_walk (Suc 0) (Double 4611686018427388 (- 62))
      [round_double 100 0, round_double 107 0] =
      [Double 7036874417766400 (- 46), Double 7536985082637058 (- 46)]"
    using walked_example by simp
  ultimately show ?thesis
    by (simp add: tick_step_gen price_make_tick product_example)
qed

subsection \<open>The metrics\<close>

lemma metrics_out_irrelevant:
  "metrics dbl clock_ns now tick (s\<lparr>out := xs\<rparr>) =
     (metrics dbl clock_ns now tick s)\<lparr>out := xs @ metrics_line dbl clock_ns now tick s\<rparr>"
  by (simp add: metrics_line_def metrics_def Let_def)

lemma out_metrics:
  "out (metrics dbl clock_ns now tick s) = out s @ metrics_line dbl clock_ns now tick s"
  by (simp add: metrics_line_def metrics_def Let_def)

lemma metrics_line_out [simp]:
  "metrics_line dbl clock_ns now tick (s\<lparr>out := xs\<rparr>) = metrics_line dbl clock_ns now tick s"
  by (simp add: metrics_line_def)

lemma consumer_metrics [simp]: "consumer (metrics dbl clock_ns now tick s) = consumer s"
  by (simp add: metrics_def Let_def)

lemma expected_seq_metrics [simp]:
  "expected_seq (metrics dbl clock_ns now tick s) = expected_seq s"
  by (simp add: metrics_def Let_def)

lemma metrics_line_is_metrics: "list_all is_metrics (metrics_line dbl clock_ns now tick s)"
  by (simp add: metrics_line_def metrics_def Let_def)

lemma length_metrics_line: "length (metrics_line dbl clock_ns now tick s) \<le> 1"
  by (simp add: metrics_line_def metrics_def Let_def)

subsection \<open>The recovery loop\<close>

lemma recover_steps:
  "(recover tcp m t :: ('d, 'o) sub_event list) =
     concat (map (\<lambda>i. recover_one tcp (m + of_nat i)) [0..<unat t - unat m])"
proof (induction tcp m t rule: recover.induct)
  case (1 tcp m t)
  show ?case
  proof (cases "m < t")
    case False
    then have "unat t - unat m = 0" by (simp add: word_less_nat_alt)
    with False show ?thesis by (simp add: recover.simps [of tcp m t])
  next
    case True
    have "unat t < 2 ^ 64" using unsigned_less [of t, where 'a = nat] by simp
    with True have "unat m + 1 < 2 ^ 64" by (simp add: word_less_nat_alt)
    then have su: "unat (m + 1) = unat m + 1" by (simp add: unat_word_ariths)
    with True have k: "unat t - unat m = Suc (unat t - unat (m + 1))"
      by (simp add: word_less_nat_alt)
    have ih: "(recover tcp (m + 1) t :: ('d, 'o) sub_event list) =
        concat (map (\<lambda>i. recover_one tcp (m + 1 + of_nat i)) [0..<unat t - unat (m + 1)])"
      using "1.IH" [OF True] .
    have "(recover tcp m t :: ('d, 'o) sub_event list) =
        recover_one tcp m @ recover tcp (m + 1) t"
      using True by (simp add: recover.simps [of tcp m t])
    also have "\<dots> = concat (map (\<lambda>i. recover_one tcp (m + of_nat i))
        [0..<Suc (unat t - unat (m + 1))])"
      by (simp add: ih upt_conv_Cons map_Suc_upt [symmetric] add.assoc o_def del: upt_Suc)
    finally show ?thesis using k by simp
  qed
qed

lemma upt_two: "[0..<2] = [0, Suc 0]"
  by (simp add: upt_rec)

text \<open>
  Claim C1, as the code has it. When a tick arrives above a nonzero cursor, the
  subscriber prints the gap and then, for each missing sequence number in ascending
  order, either prints that the connection failed, or sends the request for it and
  prints the result: recovered, with the sequence number and price of the reply, when
  the reply has the full 32 bytes, and failed otherwise. All of this comes before the
  metrics line and the lines of the trading rule for the tick received. The recovered
  tick goes no further: the state of the trading rule is that of \<open>strategy\<close> on the tick
  received, whatever the recovery channel returns.
\<close>

theorem recovered_ticks_not_delivered:
  fixes s :: "('d::{zero,plus,inverse,ord}, 'c, 'o) subscriber"
  assumes "expected_seq s \<noteq> 0" and "expected_seq s < sequence_num tick"
  shows "consumer (on_tick dbl strategy tcp clock_ns now tick s) = fst (strategy tick (consumer s)) \<and>
         expected_seq (on_tick dbl strategy tcp clock_ns now tick s) = sequence_num tick + 1 \<and>
         out (on_tick dbl strategy tcp clock_ns now tick s) =
           out s @ GapDetected (expected_seq s) (sequence_num tick) #
             concat (map (\<lambda>i. recover_one tcp (expected_seq s + of_nat i))
               [0..<unat (sequence_num tick) - unat (expected_seq s)]) @
             metrics_line dbl clock_ns now tick s @
             map StrategyPrint (snd (strategy tick (consumer s))) \<and>
         (\<forall>m rt n.
            (tcp m = ConnectThrows \<longrightarrow>
               recover_one tcp m = ([ConnectionFailed] :: ('d, 'o) sub_event list)) \<and>
            (tcp m = TcpRecv 32 rt \<longrightarrow>
               recover_one tcp m =
                 ([TcpRequest m, Recovered (sequence_num rt) (price rt)] :: ('d, 'o) sub_event list)) \<and>
            (tcp m = TcpRecv n rt \<and> n \<noteq> 32 \<longrightarrow>
               recover_one tcp m = ([TcpRequest m, RecoverFailed m] :: ('d, 'o) sub_event list)))"
  using assms
  by (simp add: on_tick_def Let_def recover_steps metrics_out_irrelevant recover_one_def
      split: prod.splits)

theorem recovered_ticks_not_delivered_witness:
  "expected_seq (at_rest 5 [seq_tick 4] :: (real, real TickPacket list, u64) subscriber) \<noteq> 0 \<and>
   expected_seq (at_rest 5 [seq_tick 4] :: (real, real TickPacket list, u64) subscriber)
     < sequence_num (seq_tick 7) \<and>
   consumer (on_tick to_real echo (\<lambda>m. TcpRecv 32 (seq_tick m)) 0 0 (seq_tick 7)
     (at_rest 5 [seq_tick 4])) = [seq_tick 4, seq_tick 7] \<and>
   expected_seq (on_tick to_real echo (\<lambda>m. TcpRecv 32 (seq_tick m)) 0 0 (seq_tick 7)
     (at_rest 5 [seq_tick 4])) = 8 \<and>
   out (on_tick to_real echo (\<lambda>m. TcpRecv 32 (seq_tick m)) 0 0 (seq_tick 7)
     (at_rest 5 [seq_tick 4])) =
     [GapDetected 5 7, TcpRequest 5, Recovered 5 0, TcpRequest 6, Recovered 6 0, StrategyPrint 7]"
proof -
  let ?s = "at_rest 5 [seq_tick 4] :: (real, real TickPacket list, u64) subscriber"
  have h1: "expected_seq ?s \<noteq> 0" by simp
  have h2: "expected_seq ?s < sequence_num (seq_tick 7)" by simp
  have z: "price (zero_tick :: real TickPacket) = 0" by (simp add: zero_tick_def)
  have ml: "metrics_line to_real 0 0 (seq_tick 7) ?s = []"
    by (simp add: metrics_line_def metrics_def Let_def)
  show ?thesis
    using h1 h2 ml
      recovered_ticks_not_delivered [OF h1 h2, of to_real echo "\<lambda>m. TcpRecv 32 (seq_tick m)" 0 0]
    by (simp add: upt_two z recover_one_def)
qed

text \<open>
  Claim C1 as it is stated fails: with the cursor at 5 and the tick 7 arriving, the
  channel gives full replies for 5 and 6, both are printed as recovered, and the
  consumer is given the tick 7 alone.
\<close>

theorem recovered_ticks_not_delivered_counterexample:
  "consumer (on_tick to_real echo (\<lambda>m. TcpRecv 32 (seq_tick m)) 0 0 (seq_tick 7) (at_rest 5 [])) =
     [seq_tick 7] \<and>
   out (on_tick to_real echo (\<lambda>m. TcpRecv 32 (seq_tick m)) 0 0 (seq_tick 7) (at_rest 5 [])) =
     [GapDetected 5 7, TcpRequest 5, Recovered 5 0, TcpRequest 6, Recovered 6 0, StrategyPrint 7]"
proof -
  have r: "(recover (\<lambda>m. TcpRecv 32 (seq_tick m)) 5 7 :: (real, u64) sub_event list) =
      [TcpRequest 5, Recovered 5 0, TcpRequest 6, Recovered 6 0]"
    by (simp add: recover.simps [of _ 5] recover.simps [of _ 6] recover.simps [of _ 7]
        recover_one_def zero_tick_def)
  show ?thesis
    by (simp add: on_tick_def metrics_def Let_def r)
qed

subsection \<open>A tick below the cursor\<close>

text \<open>
  Claim C3, as the code has it. A full-size datagram whose sequence number is below a
  nonzero cursor starts no recovery: the output gains no gap line, no request and no
  recovery line, only a metrics line at most and the lines of the trading rule. The
  tick is not discarded: it is given to the trading rule, and the cursor becomes its
  sequence number plus one.
\<close>

theorem stale_tick_is_delivered:
  assumes "expected_seq s \<noteq> 0" and "sequence_num tick < expected_seq s"
  shows "consumer (on_tick dbl strategy tcp clock_ns now tick s) = fst (strategy tick (consumer s)) \<and>
         expected_seq (on_tick dbl strategy tcp clock_ns now tick s) = sequence_num tick + 1 \<and>
         out (on_tick dbl strategy tcp clock_ns now tick s) =
           out s @ metrics_line dbl clock_ns now tick s @
             map StrategyPrint (snd (strategy tick (consumer s))) \<and>
         list_all is_metrics (metrics_line dbl clock_ns now tick s) \<and>
         length (metrics_line dbl clock_ns now tick s) \<le> 1"
proof -
  have "\<not> expected_seq s < sequence_num tick" using assms(2) by auto
  then show ?thesis
    using length_metrics_line [of dbl clock_ns now tick s]
    by (simp add: on_tick_def Let_def out_metrics metrics_line_is_metrics split: prod.splits)
qed

theorem stale_tick_is_delivered_witness:
  "expected_seq (at_rest 20 [seq_tick 19] :: (real, real TickPacket list, u64) subscriber) \<noteq> 0 \<and>
   sequence_num (seq_tick 7)
     < expected_seq (at_rest 20 [seq_tick 19] :: (real, real TickPacket list, u64) subscriber) \<and>
   consumer (on_tick to_real echo (\<lambda>m. ConnectThrows) 0 0 (seq_tick 7) (at_rest 20 [seq_tick 19])) =
     [seq_tick 19, seq_tick 7] \<and>
   expected_seq (on_tick to_real echo (\<lambda>m. ConnectThrows) 0 0 (seq_tick 7)
     (at_rest 20 [seq_tick 19])) = 8 \<and>
   out (on_tick to_real echo (\<lambda>m. ConnectThrows) 0 0 (seq_tick 7) (at_rest 20 [seq_tick 19])) =
     [StrategyPrint 7]"
proof -
  let ?s = "at_rest 20 [seq_tick 19] :: (real, real TickPacket list, u64) subscriber"
  have h1: "expected_seq ?s \<noteq> 0" by simp
  have h2: "sequence_num (seq_tick 7) < expected_seq ?s" by simp
  have ml: "metrics_line to_real 0 0 (seq_tick 7) ?s = []"
    by (simp add: metrics_line_def metrics_def Let_def)
  show ?thesis
    using h1 h2 ml stale_tick_is_delivered [OF h1 h2, of to_real echo "\<lambda>m. ConnectThrows" 0 0]
    by simp
qed

text \<open>
  Claim C3 as it is stated fails: with the cursor at 20, the late tick 7 is delivered
  after the tick 19 and the cursor falls back to 8.
\<close>

theorem stale_tick_counterexample:
  "consumer (final (ingest to_real echo 2 (at_rest 20 [seq_tick 19])
     [datagram 7 (\<lambda>m. ConnectThrows)])) = [seq_tick 19, seq_tick 7] \<and>
   expected_seq (final (ingest to_real echo 2 (at_rest 20 [seq_tick 19])
     [datagram 7 (\<lambda>m. ConnectThrows)])) = 8"
  by (simp add: final_def on_tick_def metrics_def Let_def)

subsection \<open>What is delivered\<close>

lemma consumer_on_tick:
  "consumer (on_tick dbl strategy tcp clock_ns now tick s) = fst (strategy tick (consumer s))"
  by (simp add: on_tick_def Let_def split: prod.splits)

lemma delivered_ingest:
  "consumer (final (ingest dbl deliver sg s inputs)) = consumer s @ arrivals inputs"
proof (induction inputs arbitrary: s)
  case Nil
  then show ?case by (simp add: final_def)
next
  case (Cons e inputs)
  show ?case
  proof (cases e)
    case Signal
    then show ?thesis by (simp add: final_def signal_handler_def)
  next
    case (RecvFrom received tick tcp clock_ns now)
    then show ?thesis
      by (simp add: Cons.IH consumer_on_tick) (simp add: final_def deliver_def)
  qed
qed

text \<open>
  Claim C2, as the code has it. The ticks delivered to the consumer are the ticks of
  the full-size datagrams, in the order of arrival, up to the event that ends the loop;
  so the delivered sequence numbers are strictly increasing exactly when those of the
  arriving datagrams are.
\<close>

theorem delivered_are_arrivals:
  "consumer (final (subscriber_main dbl deliver [] sg True start inputs)) = arrivals inputs \<and>
   (sorted_wrt (<) (map sequence_num
        (consumer (final (subscriber_main dbl deliver [] sg True start inputs))))
      \<longleftrightarrow> sorted_wrt (<) (map sequence_num (arrivals inputs)))"
  by (simp add: subscriber_main_def delivered_ingest Let_def)

text \<open>
  Claim C2 as it is stated fails: the datagrams 5, 3 and 3 are delivered as they
  arrive, out of order and twice.
\<close>

theorem delivered_out_of_order_counterexample:
  "map sequence_num (consumer (final (subscriber_main to_real
     (deliver :: real TickPacket \<Rightarrow> real TickPacket list \<Rightarrow> real TickPacket list \<times> unit list)
     [] 2 True 0
     [datagram 5 (\<lambda>m. ConnectThrows), datagram 3 (\<lambda>m. ConnectThrows),
      datagram 3 (\<lambda>m. ConnectThrows)]))) = [5, 3, 3]"
  by (simp add: subscriber_main_def final_def consumer_on_tick deliver_def Let_def)

subsection \<open>How the process ends\<close>

lemma ingest_append:
  "keeps_running before \<Longrightarrow>
     ingest dbl f sg s (before @ rest) = ingest dbl f sg (final (ingest dbl f sg s before)) rest"
proof (induction before arbitrary: s)
  case Nil
  then show ?case by (simp add: final_def)
next
  case (Cons e before)
  then show ?case by (cases e) auto
qed

lemma exit_code_ingest:
  "exit_code (ingest dbl f sg s inputs) \<in> {None, Some 0, Some sg}"
proof (induction inputs arbitrary: s)
  case Nil
  then show ?case by (simp add: exit_code_def)
next
  case (Cons e inputs)
  then show ?case by (cases e) (auto simp: exit_code_def signal_handler_def)
qed

lemma exit_code_one:
  assumes "sg \<noteq> 1"
  shows "exit_code (subscriber_main dbl f c0 sg setup_ok start inputs) = Some 1 \<longleftrightarrow> \<not> setup_ok"
proof (cases setup_ok)
  case False
  then show ?thesis by (simp add: subscriber_main_def exit_code_def Let_def)
next
  case True
  obtain s where "subscriber_main dbl f c0 sg setup_ok start inputs = ingest dbl f sg s inputs"
    using True by (simp add: subscriber_main_def Let_def)
  then show ?thesis
    using assms True exit_code_ingest [of dbl f sg s inputs] by auto
qed

text \<open>
  Claim C7, as the code has it. A failed receive is reported and ends the loop: the
  process exits with code 0 in the state it had, whatever input would follow. A receive
  of another length that is not negative is skipped: the process goes on as if it had
  not happened.
\<close>

theorem receive_failure_ends_loop:
  assumes "received < 0" and "keeps_running before"
  shows "subscriber_main dbl f c0 sg True start
           (before @ RecvFrom received tick tcp clock_ns now # rest) =
           Exit 0 (final (subscriber_main dbl f c0 sg True start before)
                     \<lparr>out := out (final (subscriber_main dbl f c0 sg True start before)) @
                              [UdpReceiveFailed]\<rparr>) \<and>
         (0 \<le> n \<and> n \<noteq> 32 \<longrightarrow>
            subscriber_main dbl f c0 sg True start
              (before @ RecvFrom n tick' tcp' clock_ns' now' # rest) =
            subscriber_main dbl f c0 sg True start (before @ rest))"
proof
  show "subscriber_main dbl f c0 sg True start
           (before @ RecvFrom received tick tcp clock_ns now # rest) =
           Exit 0 (final (subscriber_main dbl f c0 sg True start before)
                     \<lparr>out := out (final (subscriber_main dbl f c0 sg True start before)) @
                              [UdpReceiveFailed]\<rparr>)"
    using assms by (simp add: subscriber_main_def ingest_append Let_def)
  show "0 \<le> n \<and> n \<noteq> 32 \<longrightarrow>
            subscriber_main dbl f c0 sg True start
              (before @ RecvFrom n tick' tcp' clock_ns' now' # rest) =
            subscriber_main dbl f c0 sg True start (before @ rest)"
    using assms(2) by (simp add: subscriber_main_def ingest_append Let_def)
qed

theorem receive_failure_ends_loop_witness:
  "(- 1 :: int) < 0 \<and>
   keeps_running [datagram 5 (\<lambda>m. ConnectThrows)] \<and>
   subscriber_main to_real echo [] 2 True 0
     ([datagram 5 (\<lambda>m. ConnectThrows)] @
      RecvFrom (- 1) zero_tick (\<lambda>m. ConnectThrows) 0 0 # [datagram 6 (\<lambda>m. ConnectThrows)]) =
   Exit 0 (final (subscriber_main to_real echo [] 2 True 0 [datagram 5 (\<lambda>m. ConnectThrows)])
            \<lparr>out := [Starting, Listening, StrategyPrint 5, UdpReceiveFailed]\<rparr>) \<and>
   consumer (final (subscriber_main to_real echo [] 2 True 0 [datagram 5 (\<lambda>m. ConnectThrows)])) =
     [seq_tick 5] \<and>
   (0 :: int) \<le> 8 \<and> (8 :: int) \<noteq> 32 \<and>
   subscriber_main to_real echo [] 2 True 0
     ([datagram 5 (\<lambda>m. ConnectThrows)] @
      RecvFrom 8 (seq_tick 9) (\<lambda>m. ConnectThrows) 0 0 # [datagram 6 (\<lambda>m. ConnectThrows)]) =
   subscriber_main to_real echo [] 2 True 0
     ([datagram 5 (\<lambda>m. ConnectThrows)] @ [datagram 6 (\<lambda>m. ConnectThrows)])"
proof -
  let ?b = "[datagram 5 (\<lambda>m. ConnectThrows)]"
  have h1: "(- 1 :: int) < 0" by simp
  have h2: "keeps_running ?b" by simp
  have o: "out (final (subscriber_main to_real echo [] 2 True 0 ?b)) =
      [Starting, Listening, StrategyPrint 5]"
    by (simp add: subscriber_main_def final_def on_tick_def metrics_def Let_def)
  have c: "consumer (final (subscriber_main to_real echo [] 2 True 0 ?b)) = [seq_tick 5]"
    by (simp add: subscriber_main_def final_def on_tick_def metrics_def Let_def)
  show ?thesis
    using h1 h2 o c
      receive_failure_ends_loop [OF h1 h2, of to_real echo "[]" 2 0 zero_tick "\<lambda>m. ConnectThrows" 0 0
        "[datagram 6 (\<lambda>m. ConnectThrows)]" 8 "seq_tick 9" "\<lambda>m. ConnectThrows" 0 0]
    by simp
qed

text \<open>
  Claim C7 as it is stated fails: after a failed receive the datagram that follows is
  not processed.
\<close>

theorem receive_failure_counterexample:
  "exit_code (subscriber_main to_real echo [] 2 True 0
     [RecvFrom (- 1) zero_tick (\<lambda>m. ConnectThrows) 0 0, datagram 6 (\<lambda>m. ConnectThrows)]) = Some 0 \<and>
   consumer (final (subscriber_main to_real echo [] 2 True 0
     [RecvFrom (- 1) zero_tick (\<lambda>m. ConnectThrows) 0 0, datagram 6 (\<lambda>m. ConnectThrows)])) = [] \<and>
   out (final (subscriber_main to_real echo [] 2 True 0
     [RecvFrom (- 1) zero_tick (\<lambda>m. ConnectThrows) 0 0, datagram 6 (\<lambda>m. ConnectThrows)])) =
     [Starting, Listening, UdpReceiveFailed]"
  by (simp add: subscriber_main_def final_def exit_code_def Let_def)

text \<open>
  Claim C8, as the code has it. On the interrupt signal the process prints the report
  and exits with the number of the signal. When that number is not 1, the exit code 1
  is that of a failed setup and of nothing else.
\<close>

theorem interrupt_exits_with_signal_number:
  assumes "keeps_running before"
  shows "subscriber_main dbl f c0 sg True start (before @ Signal # rest) =
           Exit sg (final (subscriber_main dbl f c0 sg True start before)
                      \<lparr>out := out (final (subscriber_main dbl f c0 sg True start before)) @
                               [FinalReport]\<rparr>) \<and>
         (sg \<noteq> 1 \<longrightarrow>
            (exit_code (subscriber_main dbl f c0 sg setup_ok start inputs) = Some 1 \<longleftrightarrow> \<not> setup_ok))"
proof
  show "subscriber_main dbl f c0 sg True start (before @ Signal # rest) =
           Exit sg (final (subscriber_main dbl f c0 sg True start before)
                      \<lparr>out := out (final (subscriber_main dbl f c0 sg True start before)) @
                               [FinalReport]\<rparr>)"
    using assms by (simp add: subscriber_main_def ingest_append signal_handler_def Let_def)
  show "sg \<noteq> 1 \<longrightarrow>
          (exit_code (subscriber_main dbl f c0 sg setup_ok start inputs) = Some 1 \<longleftrightarrow> \<not> setup_ok)"
    by (simp add: exit_code_one)
qed

theorem interrupt_exits_with_signal_number_witness:
  "keeps_running [datagram 5 (\<lambda>m. ConnectThrows)] \<and>
   subscriber_main to_real echo [] 2 True 0
     ([datagram 5 (\<lambda>m. ConnectThrows)] @ Signal # [datagram 6 (\<lambda>m. ConnectThrows)]) =
   Exit 2 (final (subscriber_main to_real echo [] 2 True 0 [datagram 5 (\<lambda>m. ConnectThrows)])
            \<lparr>out := [Starting, Listening, StrategyPrint 5, FinalReport]\<rparr>) \<and>
   (2 :: int) \<noteq> 1 \<and>
   exit_code (subscriber_main to_real echo [] 2 False 0 [Signal]) = Some 1"
proof -
  let ?b = "[datagram 5 (\<lambda>m. ConnectThrows)]"
  have h: "keeps_running ?b" by simp
  have o: "out (final (subscriber_main to_real echo [] 2 True 0 ?b)) =
      [Starting, Listening, StrategyPrint 5]"
    by (simp add: subscriber_main_def final_def on_tick_def metrics_def Let_def)
  show ?thesis
    using h o
      interrupt_exits_with_signal_number [OF h, of to_real echo "[]" 2 0
        "[datagram 6 (\<lambda>m. ConnectThrows)]" False "[Signal]"]
    by simp
qed

text \<open>
  Claim C8 as it is stated fails: with the signal number 2 of \<open>SIGINT\<close>, the exit code
  after an interrupt is 2.
\<close>

theorem interrupt_counterexample:
  "exit_code (subscriber_main to_real echo [] 2 True 0
     [datagram 5 (\<lambda>m. ConnectThrows), Signal]) = Some 2"
  by (simp add: subscriber_main_def exit_code_def signal_handler_def Let_def)

end
